theory Spec2Isabelle
  imports Complex_Main
begin

section \<open>Terrain-aware location placement of the map maker\<close>

text \<open>
  The two operations of \<^verbatim>\<open>src/components/MapMakerDashboard.tsx\<close> that place generated
  locations on the map: \<^verbatim>\<open>analyzeTerrainForPlacement\<close> (lines 387-455) and
  \<^verbatim>\<open>findOptimalPlacement\<close> (lines 458-519).

  JavaScript numbers are modelled as follows: the map width and height, which the
  settings form only ever sets through \<^verbatim>\<open>parseInt\<close>, and the grid coordinates of the
  analyzer are \<open>int\<close>; scores, radii, positions of placed locations and results are
  \<open>real\<close> (the rounding of IEEE doubles is not modelled). The bytes of the
  \<^verbatim>\<open>Uint8ClampedArray\<close> read from the canvas are \<open>nat\<close>.

  \<^verbatim>\<open>Math.random()\<close> is an explicit source: a function \<open>rnd\<close> giving the successive
  draws, and a position \<open>k\<close> of the next draw; every operation returns the position
  after its last draw.
\<close>

subsection \<open>Data\<close>

type_synonym rng = "nat \<Rightarrow> real"

definition validRng :: "rng \<Rightarrow> bool" where
  "validRng rnd = (\<forall>n. 0 \<le> rnd n \<and> rnd n < 1)"

record mapSettings =
  width :: int
  height :: int

record suitabilityPoint =
  area_x :: int
  area_y :: int
  score :: real

record avoidRegion =
  avoid_x :: int
  avoid_y :: int
  radius :: real

record terrainAnalysis =
  suitableAreas :: "suitabilityPoint list"
  avoidAreas :: "avoidRegion list"

record mapLocation =
  loc_type :: string
  loc_x :: real
  loc_y :: real

record placement =
  px :: real
  py :: real

subsection \<open>analyzeTerrainForPlacement\<close>

abbreviation sampleSize :: int where
  "sampleSize \<equiv> 20"

text \<open>
  \<^verbatim>\<open>data[i]\<close>: a read outside the array is \<^verbatim>\<open>undefined\<close>, here \<open>None\<close>.
\<close>

definition readByte :: "nat list \<Rightarrow> int \<Rightarrow> nat option" where
  "readByte data i = (if 0 \<le> i \<and> nat i < length data then Some (data ! nat i) else None)"

definition brightnessOf :: "nat \<Rightarrow> nat \<Rightarrow> nat \<Rightarrow> real" where
  "brightnessOf r g b = (real r + real g + real b) / 3"

definition isWater :: "nat \<Rightarrow> nat \<Rightarrow> nat \<Rightarrow> bool" where
  "isWater r g b = (b > r + 30 \<and> b > g + 30)"

definition isVeryDark :: "nat \<Rightarrow> nat \<Rightarrow> nat \<Rightarrow> bool" where
  "isVeryDark r g b = (brightnessOf r g b < 50)"

definition isVeryBright :: "nat \<Rightarrow> nat \<Rightarrow> nat \<Rightarrow> bool" where
  "isVeryBright r g b = (brightnessOf r g b > 200)"

text \<open>
  The score of a sample before the random term is added (lines 426-440): the
  \<^verbatim>\<open>if / else if / else if\<close> chain of penalties, then the separate \<^verbatim>\<open>if\<close> of the
  bonus.
\<close>

definition baseScore :: "nat \<Rightarrow> nat \<Rightarrow> nat \<Rightarrow> real" where
  "baseScore r g b =
    (let score = 100;
         score = (if isWater r g b then score - 80
                  else if isVeryDark r g b then score - 60
                  else if isVeryBright r g b then score - 20
                  else score);
         score = (if brightnessOf r g b \<ge> 80 \<and> brightnessOf r g b \<le> 160 then score + 30
                  else score)
     in score)"

text \<open>
  The classification of the pixel at \<open>index\<close>: whether it is water, and its score
  before the random term. When a channel is \<^verbatim>\<open>undefined\<close> the brightness is NaN and
  every comparison of the source is false: the sample is not water and its score stays
  100.
\<close>

definition classify :: "nat list \<Rightarrow> int \<Rightarrow> bool \<times> real" where
  "classify data index =
    (case (readByte data index, readByte data (index + 1), readByte data (index + 2)) of
       (Some r, Some g, Some b) \<Rightarrow> (isWater r g b, baseScore r g b)
     | _ \<Rightarrow> (False, 100))"

text \<open>The body of the inner loop (lines 414-447) at the sample point \<open>(x, y)\<close>.\<close>

definition sampleStep ::
  "int \<Rightarrow> nat list \<Rightarrow> rng \<Rightarrow> int \<Rightarrow> int \<Rightarrow> terrainAnalysis \<times> nat \<Rightarrow> terrainAnalysis \<times> nat" where
  "sampleStep w data rnd x y st =
    (let an = fst st; k = snd st;
         index = (y * w + x) * 4;
         water = fst (classify data index);
         avoid = (if water
                  then avoidAreas an @ [\<lparr>avoid_x = x, avoid_y = y, radius = 30\<rparr>]
                  else avoidAreas an);
         sc = snd (classify data index) + (rnd k * 20 - 10);
         suitable = (if sc > 40
                     then suitableAreas an @ [\<lparr>area_x = x, area_y = y, score = sc\<rparr>]
                     else suitableAreas an)
     in (\<lparr>suitableAreas = suitable, avoidAreas = avoid\<rparr>, k + 1))"

function loopY ::
  "int \<Rightarrow> int \<Rightarrow> nat list \<Rightarrow> rng \<Rightarrow> int \<Rightarrow> int \<Rightarrow> terrainAnalysis \<times> nat \<Rightarrow> terrainAnalysis \<times> nat" where
  "loopY w h data rnd x y st =
    (if y < h - sampleSize
     then loopY w h data rnd x (y + sampleSize) (sampleStep w data rnd x y st)
     else st)"
  by pat_completeness auto
termination
  by (relation "measure (\<lambda>(w, h, data, rnd, x, y, st). nat (h - sampleSize - y))") auto

function loopX ::
  "int \<Rightarrow> int \<Rightarrow> nat list \<Rightarrow> rng \<Rightarrow> int \<Rightarrow> terrainAnalysis \<times> nat \<Rightarrow> terrainAnalysis \<times> nat" where
  "loopX w h data rnd x st =
    (if x < w - sampleSize
     then loopX w h data rnd (x + sampleSize) (loopY w h data rnd x sampleSize st)
     else st)"
  by pat_completeness auto
termination
  by (relation "measure (\<lambda>(w, h, data, rnd, x, st). nat (w - sampleSize - x))") auto

declare loopY.simps [simp del]
declare loopX.simps [simp del]

text \<open>
  \<^verbatim>\<open>suitableAreas.sort((a, b) => b.score - a.score)\<close>: the stable sort by descending
  score.
\<close>

definition sortByScore :: "suitabilityPoint list \<Rightarrow> suitabilityPoint list" where
  "sortByScore xs = sort_key (\<lambda>a. - score a) xs"

text \<open>
  The terrain is \<open>None\<close> when there is no terrain image (or no drawing context), and
  otherwise the RGBA bytes that \<^verbatim>\<open>getImageData\<close> returns for the image drawn at the
  size of the map.
\<close>

definition analyzeTerrainForPlacement ::
  "mapSettings \<Rightarrow> nat list option \<Rightarrow> rng \<Rightarrow> nat \<Rightarrow> terrainAnalysis \<times> nat" where
  "analyzeTerrainForPlacement ms terrain rnd k =
    (case terrain of
       None \<Rightarrow> (\<lparr>suitableAreas = [], avoidAreas = []\<rparr>, k)
     | Some data \<Rightarrow>
         (let st = loopX (width ms) (height ms) data rnd sampleSize
                     (\<lparr>suitableAreas = [], avoidAreas = []\<rparr>, k)
          in (\<lparr>suitableAreas = sortByScore (suitableAreas (fst st)),
               avoidAreas = avoidAreas (fst st)\<rparr>, snd st)))"

subsection \<open>findOptimalPlacement\<close>

text \<open>
  The two \<^verbatim>\<open>some\<close> tests (lines 469-472 and 495-504), at a point \<open>(x, y)\<close>: some
  existing location is nearer than 80, some avoid region is nearer than its radius.
\<close>

definition tooClose :: "mapLocation list \<Rightarrow> real \<Rightarrow> real \<Rightarrow> bool" where
  "tooClose existingLocations x y =
    list_ex (\<lambda>loc. sqrt ((loc_x loc - x)\<^sup>2 + (loc_y loc - y)\<^sup>2) < 80) existingLocations"

definition inAvoidArea :: "avoidRegion list \<Rightarrow> real \<Rightarrow> real \<Rightarrow> bool" where
  "inAvoidArea avoid x y =
    list_ex (\<lambda>av. sqrt ((real_of_int (avoid_x av) - x)\<^sup>2 + (real_of_int (avoid_y av) - y)\<^sup>2)
                   < radius av) avoid"

text \<open>The five successive \<^verbatim>\<open>if\<close> statements of lines 485-490.\<close>

definition typeBonus :: "string \<Rightarrow> real \<Rightarrow> real" where
  "typeBonus locationType s =
    (let bonus = 0;
         bonus = (if locationType = ''landmark'' \<and> s > 80 then 20 else bonus);
         bonus = (if locationType = ''shop'' \<and> s > 60 \<and> s < 90 then 15 else bonus);
         bonus = (if locationType = ''mission'' \<and> s > 70 then 10 else bonus);
         bonus = (if locationType = ''resource'' \<and> s > 50 then 25 else bonus);
         bonus = (if locationType = ''npc'' \<and> s > 60 then 15 else bonus)
     in bonus)"

text \<open>
  \<^verbatim>\<open>{ x: Math.random() * (width - 100) + 50, y: Math.random() * (height - 100) + 50 }\<close>,
  the draw for \<open>x\<close> first.
\<close>

definition randomPoint :: "mapSettings \<Rightarrow> rng \<Rightarrow> nat \<Rightarrow> placement" where
  "randomPoint ms rnd k =
    \<lparr>px = rnd k * (real_of_int (width ms) - 100) + 50,
     py = rnd (k + 1) * (real_of_int (height ms) - 100) + 50\<rparr>"

text \<open>The \<^verbatim>\<open>while (attempts < 50)\<close> loop of lines 463-479 and the draw after it.\<close>

function randomAttempts ::
  "mapSettings \<Rightarrow> mapLocation list \<Rightarrow> rng \<Rightarrow> nat \<Rightarrow> nat \<Rightarrow> placement \<times> nat" where
  "randomAttempts ms existingLocations rnd attempts k =
    (if attempts < 50
     then (if \<not> tooClose existingLocations (px (randomPoint ms rnd k)) (py (randomPoint ms rnd k))
           then (randomPoint ms rnd k, k + 2)
           else randomAttempts ms existingLocations rnd (attempts + 1) (k + 2))
     else (randomPoint ms rnd k, k + 2))"
  by pat_completeness auto
termination
  by (relation "measure (\<lambda>(ms, existingLocations, rnd, attempts, k). 50 - attempts)") auto

declare randomAttempts.simps [simp del]

text \<open>The condition of line 506 on one area.\<close>

definition acceptable :: "string \<Rightarrow> mapLocation list \<Rightarrow> avoidRegion list \<Rightarrow> suitabilityPoint \<Rightarrow> bool" where
  "acceptable locationType existingLocations avoid area =
    (let finalScore = score area + typeBonus locationType (score area)
     in \<not> tooClose existingLocations (real_of_int (area_x area)) (real_of_int (area_y area))
        \<and> \<not> inAvoidArea avoid (real_of_int (area_x area)) (real_of_int (area_y area))
        \<and> finalScore > 50)"

text \<open>The point returned for an accepted area (lines 508-513).\<close>

definition jittered :: "mapSettings \<Rightarrow> suitabilityPoint \<Rightarrow> rng \<Rightarrow> nat \<Rightarrow> placement" where
  "jittered ms area rnd k =
    (let offsetX = (rnd k - 0.5) * 40;
         offsetY = (rnd (k + 1) - 0.5) * 40
     in \<lparr>px = max 50 (min (real_of_int (width ms) - 50) (real_of_int (area_x area) + offsetX)),
         py = max 50 (min (real_of_int (height ms) - 50) (real_of_int (area_y area) + offsetY))\<rparr>)"

text \<open>The \<^verbatim>\<open>for (const area of suitableAreas)\<close> loop and the fallback after it.\<close>

fun scanAreas ::
  "mapSettings \<Rightarrow> string \<Rightarrow> mapLocation list \<Rightarrow> avoidRegion list \<Rightarrow> rng \<Rightarrow> nat
    \<Rightarrow> suitabilityPoint list \<Rightarrow> placement \<times> nat" where
  "scanAreas ms locationType existingLocations avoid rnd k [] = (randomPoint ms rnd k, k + 2)"
| "scanAreas ms locationType existingLocations avoid rnd k (area # rest) =
    (if acceptable locationType existingLocations avoid area
     then (jittered ms area rnd k, k + 2)
     else scanAreas ms locationType existingLocations avoid rnd k rest)"

definition findOptimalPlacement ::
  "mapSettings \<Rightarrow> string \<Rightarrow> mapLocation list \<Rightarrow> terrainAnalysis \<Rightarrow> rng \<Rightarrow> nat \<Rightarrow> placement \<times> nat" where
  "findOptimalPlacement ms locationType existingLocations ta rnd k =
    (if length (suitableAreas ta) = 0
     then randomAttempts ms existingLocations rnd 0 k
     else scanAreas ms locationType existingLocations (avoidAreas ta) rnd k (suitableAreas ta))"

subsection \<open>Notions used to state the properties\<close>

text \<open>A result lies within the map minus the margin of 50.\<close>

definition inBounds :: "mapSettings \<Rightarrow> placement \<Rightarrow> bool" where
  "inBounds ms p =
    (50 \<le> px p \<and> px p \<le> real_of_int (width ms) - 50
     \<and> 50 \<le> py p \<and> py p \<le> real_of_int (height ms) - 50)"

text \<open>A random source that returns the same value at every draw.\<close>

definition constRng :: "real \<Rightarrow> rng" where
  "constRng c n = c"

text \<open>A random source whose first four draws are 0, 1/4, 1/2 and 3/4.\<close>

definition rampRng :: rng where
  "rampRng n = real n / 4"

text \<open>
  The coordinates \<open>a, a + 20, a + 40, \<dots>\<close> below \<open>n - 20\<close> in closed form, the sample
  points of a map in the order the loops visit them, and their number.
\<close>

definition gridFrom :: "int \<Rightarrow> int \<Rightarrow> int list" where
  "gridFrom a n = map (\<lambda>i. a + sampleSize * int i) [0..<nat ((n - 1 - a) div sampleSize)]"

definition gridPoints :: "mapSettings \<Rightarrow> (int \<times> int) list" where
  "gridPoints ms = List.product (gridFrom sampleSize (width ms)) (gridFrom sampleSize (height ms))"


text \<open>The pixel under the sample point \<open>p\<close> is classified as water.\<close>

definition waterAt :: "int \<Rightarrow> nat list \<Rightarrow> int \<times> int \<Rightarrow> bool" where
  "waterAt w data p = fst (classify data ((snd p * w + fst p) * 4))"

text \<open>The final score of the sample point \<open>fst pj\<close> when its random draw is number \<open>snd pj\<close>.\<close>

definition sampleScore :: "int \<Rightarrow> nat list \<Rightarrow> rng \<Rightarrow> (int \<times> int) \<times> nat \<Rightarrow> real" where
  "sampleScore w data rnd pj =
     snd (classify data ((snd (fst pj) * w + fst (fst pj)) * 4)) + (rnd (snd pj) * 20 - 10)"

text \<open>The loop body run over a list of sample points.\<close>

definition runSamples ::
  "int \<Rightarrow> nat list \<Rightarrow> rng \<Rightarrow> terrainAnalysis \<times> nat \<Rightarrow> (int \<times> int) list \<Rightarrow> terrainAnalysis \<times> nat" where
  "runSamples w data rnd st ps = foldl (\<lambda>s p. sampleStep w data rnd (fst p) (snd p) s) st ps"

text \<open>
  The image data of a map in which every pixel has the colour \<open>(r, g, b)\<close>, and such
  data with every pixel opaque.
\<close>

definition uniformSurface :: "mapSettings \<Rightarrow> nat list \<Rightarrow> nat \<Rightarrow> nat \<Rightarrow> nat \<Rightarrow> bool" where
  "uniformSurface ms data r g b =
    (length data = 4 * (nat (width ms) * nat (height ms))
     \<and> (\<forall>i < nat (width ms) * nat (height ms).
           data ! (4 * i) = r \<and> data ! (4 * i + 1) = g \<and> data ! (4 * i + 2) = b))"

definition uniformData :: "nat \<Rightarrow> nat \<Rightarrow> nat \<Rightarrow> nat \<Rightarrow> nat list" where
  "uniformData n r g b = concat (replicate n [r, g, b, 255])"

section \<open>Auxiliary facts\<close>

subsection \<open>The sampling loops\<close>

lemma gridFrom_stop: "\<not> a < n - sampleSize \<Longrightarrow> gridFrom a n = []"
  by (simp add: gridFrom_def)

lemma gridFrom_step:
  assumes "a < n - sampleSize"
  shows "gridFrom a n = a # gridFrom (a + sampleSize) n"
proof -
  have "(n - 1 - a) div 20 = (n - 1 - (a + 20)) div 20 + 1" by simp
  moreover have "0 \<le> (n - 1 - (a + 20)) div 20" using assms by simp
  ultimately have c: "nat ((n - 1 - a) div 20) = Suc (nat ((n - 1 - (a + 20)) div 20))"
    by simp
  show ?thesis
    unfolding gridFrom_def c
    by (simp add: upt_conv_Cons map_Suc_upt [symmetric] del: upt_Suc) 
qed

lemma loopY_foldl:
  "loopY w h data rnd x y st = foldl (\<lambda>s y'. sampleStep w data rnd x y' s) st (gridFrom y h)"
proof (induction w h data rnd x y st rule: loopY.induct)
  case (1 w h data rnd x y st)
  show ?case
  proof (cases "y < h - sampleSize")
    case True
    then show ?thesis
      using 1 by (subst loopY.simps) (simp add: gridFrom_step)
  next
    case False
    then show ?thesis
      by (subst loopY.simps) (simp add: gridFrom_stop)
  qed
qed

lemma foldl_product:
  "foldl (\<lambda>s x. foldl (\<lambda>s y. g x y s) s ys) st xs
    = foldl (\<lambda>s p. g (fst p) (snd p) s) st (List.product xs ys)"
  by (induction xs arbitrary: st) (simp_all add: foldl_map)

lemma loopX_foldl:
  "loopX w h data rnd x st
    = foldl (\<lambda>s x'. foldl (\<lambda>s y'. sampleStep w data rnd x' y' s) s (gridFrom sampleSize h)) st
        (gridFrom x w)"
proof (induction w h data rnd x st rule: loopX.induct)
  case (1 w h data rnd x st)
  show ?case
  proof (cases "x < w - sampleSize")
    case True
    then show ?thesis
      using 1 by (subst loopX.simps) (simp add: gridFrom_step loopY_foldl)
  next
    case False
    then show ?thesis
      by (subst loopX.simps) (simp add: gridFrom_stop)
  qed
qed

lemma loopX_runSamples:
  "loopX (width ms) (height ms) data rnd sampleSize st = runSamples (width ms) data rnd st (gridPoints ms)"
  unfolding loopX_foldl runSamples_def gridPoints_def
  by (rule foldl_product)

lemma runSamples_Nil: "runSamples w data rnd st [] = st"
  by (simp add: runSamples_def)

lemma runSamples_Cons:
  "runSamples w data rnd st (p # ps) = runSamples w data rnd (sampleStep w data rnd (fst p) (snd p) st) ps"
  by (simp add: runSamples_def)

lemma runSamples_pos: "snd (runSamples w data rnd st ps) = snd st + length ps"
  by (induction ps arbitrary: st) (simp_all add: runSamples_Nil runSamples_Cons sampleStep_def Let_def)

lemma runSamples_avoid:
  "avoidAreas (fst (runSamples w data rnd st ps))
    = avoidAreas (fst st)
      @ map (\<lambda>p. \<lparr>avoid_x = fst p, avoid_y = snd p, radius = 30\<rparr>) (filter (waterAt w data) ps)"
  by (induction ps arbitrary: st)
     (simp_all add: runSamples_Nil runSamples_Cons sampleStep_def Let_def waterAt_def)

lemma runSamples_suitable:
  "suitableAreas (fst (runSamples w data rnd st ps))
    = suitableAreas (fst st)
      @ map (\<lambda>pj. \<lparr>area_x = fst (fst pj), area_y = snd (fst pj), score = sampleScore w data rnd pj\<rparr>)
          (filter (\<lambda>pj. sampleScore w data rnd pj > 40) (zip ps [snd st ..< snd st + length ps]))"
proof (induction ps arbitrary: st)
  case Nil
  then show ?case by (simp add: runSamples_Nil)
next
  case (Cons p ps)
  have "snd st < snd st + length (p # ps)" by simp
  then have "[snd st ..< snd st + length (p # ps)] = snd st # [Suc (snd st) ..< snd st + length (p # ps)]"
    by (rule upt_conv_Cons)
  moreover have "snd st + length (p # ps) = Suc (snd st) + length ps" by simp
  ultimately have u: "[snd st ..< snd st + length (p # ps)] = snd st # [Suc (snd st) ..< Suc (snd st) + length ps]"
    by simp
  have s: "snd (sampleStep w data rnd (fst p) (snd p) st) = Suc (snd st)"
    by (simp add: sampleStep_def Let_def)
  show ?case
    unfolding runSamples_Cons Cons.IH u s
    by (simp add: sampleStep_def Let_def sampleScore_def)
qed



lemma set_gridFrom: "x \<in> set (gridFrom a n) \<Longrightarrow> a \<le> x \<and> x < n - sampleSize"
proof -
  assume "x \<in> set (gridFrom a n)"
  then obtain i where i: "i < nat ((n - 1 - a) div 20)" and x: "x = a + 20 * int i"
    by (auto simp: gridFrom_def)
  from i have "int i + 1 \<le> (n - 1 - a) div 20" by simp
  then have "20 * (int i + 1) \<le> 20 * ((n - 1 - a) div 20)" by simp
  also have "\<dots> \<le> n - 1 - a" by simp
  finally show ?thesis using x by simp
qed



text \<open>The result of the analyzer on a terrain, in closed form.\<close>

lemma analyze_Some:
  "analyzeTerrainForPlacement ms (Some data) rnd k =
    (\<lparr>suitableAreas = sortByScore
        (map (\<lambda>pj. \<lparr>area_x = fst (fst pj), area_y = snd (fst pj),
                       score = sampleScore (width ms) data rnd pj\<rparr>)
          (filter (\<lambda>pj. sampleScore (width ms) data rnd pj > 40)
             (zip (gridPoints ms) [k ..< k + length (gridPoints ms)]))),
      avoidAreas = map (\<lambda>p. \<lparr>avoid_x = fst p, avoid_y = snd p, radius = 30\<rparr>)
                     (filter (waterAt (width ms) data) (gridPoints ms))\<rparr>,
     k + length (gridPoints ms))"
  by (simp add: analyzeTerrainForPlacement_def Let_def loopX_runSamples runSamples_suitable
        runSamples_avoid runSamples_pos)

subsection \<open>Sorting\<close>

lemma sortByScore_sorted: "sorted (map (\<lambda>a. - score a) (sortByScore xs))"
  by (simp add: sortByScore_def)



subsection \<open>Surfaces of one colour\<close>

lemma gridPoint_index:
  assumes "p \<in> set (gridPoints ms)"
  shows "0 \<le> snd p * width ms + fst p
         \<and> nat (snd p * width ms + fst p) < nat (width ms) * nat (height ms)"
proof -
  obtain x y where p: "p = (x, y)" by (cases p)
  from assms p have "x \<in> set (gridFrom sampleSize (width ms))" "y \<in> set (gridFrom sampleSize (height ms))"
    by (simp_all add: gridPoints_def)
  then have x: "20 \<le> x" "x < width ms - 20" and y: "20 \<le> y" "y < height ms - 20"
    using set_gridFrom by blast+
  have w: "0 \<le> width ms" and h: "0 \<le> height ms" using x y by simp_all
  have "y * width ms \<le> (height ms - 21) * width ms"
    using y w by (intro mult_right_mono) simp_all
  then have "y * width ms + x < (height ms - 21) * width ms + width ms"
    using x by linarith
  also have "\<dots> = (height ms - 20) * width ms" by (simp add: algebra_simps)
  also have "\<dots> \<le> height ms * width ms"
    using w by (intro mult_right_mono) simp_all
  finally have lt: "y * width ms + x < width ms * height ms" by (simp add: mult.commute)
  have "0 \<le> y * width ms" using y w by simp
  then have nonneg: "0 \<le> y * width ms + x" using x by simp
  have "nat (y * width ms + x) < nat (width ms * height ms)"
    using lt nonneg by simp
  then show ?thesis using nonneg p w by (simp add: nat_mult_distrib)
qed

lemma uniform_classify:
  assumes u: "uniformSurface ms data r g b" and p: "p \<in> set (gridPoints ms)"
  shows "classify data ((snd p * width ms + fst p) * 4) = (isWater r g b, baseScore r g b)"
proof -
  define i where "i = snd p * width ms + fst p"
  have i0: "0 \<le> i" and il: "nat i < nat (width ms) * nat (height ms)"
    using gridPoint_index [OF p] by (simp_all add: i_def)
  have len: "length data = 4 * (nat (width ms) * nat (height ms))"
    and px: "data ! (4 * nat i) = r" "data ! (4 * nat i + 1) = g" "data ! (4 * nat i + 2) = b"
    using u il by (simp_all add: uniformSurface_def)
  have n0: "nat (i * 4) = 4 * nat i" and n1: "nat (i * 4 + 1) = 4 * nat i + 1"
    and n2: "nat (i * 4 + 2) = 4 * nat i + 2"
    using i0 by simp_all
  have r: "readByte data (i * 4) = Some r"
    using i0 il len px by (simp add: readByte_def n0)
  have g: "readByte data (i * 4 + 1) = Some g"
    using i0 il len px by (simp add: readByte_def n1)
  have b: "readByte data (i * 4 + 2) = Some b"
    using i0 il len px by (simp add: readByte_def n2)
  show ?thesis
    unfolding i_def [symmetric] by (simp add: classify_def r g b)
qed

lemma uniformData_length: "length (uniformData n r g b) = 4 * n"
  by (induction n) (simp_all add: uniformData_def)

lemma uniformData_nth:
  "i < n \<Longrightarrow> uniformData n r g b ! (4 * i) = r \<and> uniformData n r g b ! (4 * i + 1) = g
     \<and> uniformData n r g b ! (4 * i + 2) = b"
proof (induction n arbitrary: i)
  case 0
  then show ?case by simp
next
  case (Suc n)
  have c: "uniformData (Suc n) r g b = r # g # b # 255 # uniformData n r g b"
    by (simp add: uniformData_def)
  show ?case
  proof (cases i)
    case 0
    then show ?thesis by (simp add: c)
  next
    case (Suc j)
    then have "j < n" using Suc.prems by simp
    then have IH: "uniformData n r g b ! (4 * j) = r \<and> uniformData n r g b ! (4 * j + 1) = g
     \<and> uniformData n r g b ! (4 * j + 2) = b" by (rule Suc.IH)
    have "4 * i = Suc (Suc (Suc (Suc (4 * j))))" using Suc by simp
    then show ?thesis using IH by (simp add: c)
  qed
qed

lemma uniformData_surface:
  "n = nat (width ms) * nat (height ms) \<Longrightarrow> uniformSurface ms (uniformData n r g b) r g b"
  unfolding uniformSurface_def
  by (intro conjI allI impI) (simp_all only: uniformData_length uniformData_nth)









lemma baseScore_gray: "baseScore 120 120 120 = 130"
  by (simp add: baseScore_def isWater_def isVeryDark_def isVeryBright_def brightnessOf_def)




subsection \<open>The random source\<close>

lemma validRng_const: "0 \<le> c \<Longrightarrow> c < 1 \<Longrightarrow> validRng (constRng c)"
  by (simp add: validRng_def constRng_def)


subsection \<open>The selector\<close>

lemma sqrt_less_num: "0 \<le> r \<Longrightarrow> (sqrt x < r) = (x < r\<^sup>2)"
proof -
  assume r: "0 \<le> r"
  then have "sqrt (r\<^sup>2) = r" by simp
  then have "(sqrt x < r) = (sqrt x < sqrt (r\<^sup>2))" by simp
  also have "\<dots> = (x < r\<^sup>2)" by (rule real_sqrt_less_iff)
  finally show ?thesis .
qed

lemma sqrt_less_80: "(sqrt x < 80) = (x < 6400)"
  using sqrt_less_num [of 80 x] by simp

lemma sqrt_less_30: "(sqrt x < 30) = (x < 900)"
  using sqrt_less_num [of 30 x] by simp

lemma randomPoint_inBounds:
  assumes "validRng rnd" "100 \<le> width ms" "100 \<le> height ms"
  shows "inBounds ms (randomPoint ms rnd k)"
proof -
  have r0: "0 \<le> rnd k" "rnd k < 1" "0 \<le> rnd (k + 1)" "rnd (k + 1) < 1"
    using assms(1) by (simp_all add: validRng_def)
  have w: "0 \<le> real_of_int (width ms) - 100" and h: "0 \<le> real_of_int (height ms) - 100"
    using assms(2,3) by simp_all
  have "0 \<le> rnd k * (real_of_int (width ms) - 100)"
    using r0 w by simp
  moreover have "rnd k * (real_of_int (width ms) - 100) \<le> 1 * (real_of_int (width ms) - 100)"
    using r0 w by (intro mult_right_mono) simp_all
  moreover have "0 \<le> rnd (k + 1) * (real_of_int (height ms) - 100)"
    using r0 h by simp
  moreover have "rnd (k + 1) * (real_of_int (height ms) - 100) \<le> 1 * (real_of_int (height ms) - 100)"
    using r0 h by (intro mult_right_mono) simp_all
  ultimately show ?thesis by (simp add: inBounds_def randomPoint_def)
qed

lemma jittered_inBounds:
  assumes "100 \<le> width ms" "100 \<le> height ms"
  shows "inBounds ms (jittered ms area rnd k)"
  using assms by (simp add: inBounds_def jittered_def Let_def)

lemma randomAttempts_inBounds:
  "validRng rnd \<Longrightarrow> 100 \<le> width ms \<Longrightarrow> 100 \<le> height ms
    \<Longrightarrow> inBounds ms (fst (randomAttempts ms ex rnd attempts k))"
proof (induction ms ex rnd attempts k rule: randomAttempts.induct)
  case (1 ms ex rnd attempts k)
  show ?case
  proof (cases "attempts < 50 \<and> tooClose ex (px (randomPoint ms rnd k)) (py (randomPoint ms rnd k))")
    case True
    have eq: "randomAttempts ms ex rnd attempts k = randomAttempts ms ex rnd (attempts + 1) (k + 2)"
      using True by (subst randomAttempts.simps) simp
    show ?thesis unfolding eq using 1 True by blast
  next
    case False
    then have "randomAttempts ms ex rnd attempts k = (randomPoint ms rnd k, k + 2)"
      by (subst randomAttempts.simps) auto
    then show ?thesis using randomPoint_inBounds [of rnd ms k] 1 by simp
  qed
qed

lemma scanAreas_inBounds:
  "validRng rnd \<Longrightarrow> 100 \<le> width ms \<Longrightarrow> 100 \<le> height ms
    \<Longrightarrow> inBounds ms (fst (scanAreas ms lt ex avoid rnd k areas))"
  by (induction areas) (simp_all add: randomPoint_inBounds jittered_inBounds)



lemma scanAreas_accepts:
  "\<exists>a \<in> set areas. acceptable lt ex avoid a
    \<Longrightarrow> \<exists>a \<in> set areas. acceptable lt ex avoid a
          \<and> scanAreas ms lt ex avoid rnd k areas = (jittered ms a rnd k, k + 2)"
  by (induction areas) auto

lemma acceptable_iff:
  "acceptable lt ex avoid a =
    (50 < score a + typeBonus lt (score a)
     \<and> (\<forall>loc \<in> set ex. 80 \<le> sqrt ((loc_x loc - real_of_int (area_x a))\<^sup>2
                                    + (loc_y loc - real_of_int (area_y a))\<^sup>2))
     \<and> (\<forall>av \<in> set avoid. radius av \<le> sqrt ((real_of_int (avoid_x av) - real_of_int (area_x a))\<^sup>2
                                    + (real_of_int (avoid_y av) - real_of_int (area_y a))\<^sup>2)))"
  by (auto simp: acceptable_def Let_def tooClose_def inAvoidArea_def list_ex_iff not_less)



subsection \<open>Two analyses computed\<close>

text \<open>
  A map of 80 by 80 has the four sample points (20, 20), (20, 40), (40, 20) and (40, 40).
\<close>

lemma gridPoints_80: "gridPoints \<lparr>width = 80, height = 80\<rparr> = [(20, 20), (20, 40), (40, 20), (40, 40)]"
  by (simp add: gridPoints_def gridFrom_def upt_conv_Cons)

lemma zip_80: "zip [(20::int, 20::int), (20, 40), (40, 20), (40, 40)] [0..<4]
   = [((20, 20), 0), ((20, 40), 1), ((40, 20), 2), ((40, 40), 3)]"
  by (simp add: upt_conv_Cons)


lemma gray_surface_80:
  "uniformSurface \<lparr>width = 80, height = 80\<rparr> (uniformData 6400 120 120 120) 120 120 120"
  by (rule uniformData_surface) simp


lemma sampleScore_gray_80:
  "p \<in> set (gridPoints \<lparr>width = 80, height = 80\<rparr>)
    \<Longrightarrow> sampleScore 80 (uniformData 6400 120 120 120) rnd (p, j) = 130 + (rnd j * 20 - 10)"
  using uniform_classify [OF gray_surface_80, of p]
  by (simp only: sampleScore_def fst_conv snd_conv baseScore_gray mapSettings.simps)


lemma gray_example:
  "suitableAreas (fst (analyzeTerrainForPlacement \<lparr>width = 80, height = 80\<rparr>
        (Some (uniformData 6400 120 120 120)) rampRng 0))
   = [\<lparr>area_x = 40, area_y = 40, score = 135\<rparr>, \<lparr>area_x = 40, area_y = 20, score = 130\<rparr>,
      \<lparr>area_x = 20, area_y = 40, score = 125\<rparr>, \<lparr>area_x = 20, area_y = 20, score = 120\<rparr>]"
proof -
  have s: "sampleScore 80 (uniformData 6400 120 120 120) rnd (p, j) = 130 + (rnd j * 20 - 10)"
    if "p = (20, 20) \<or> p = (20, 40) \<or> p = (40, 20) \<or> p = (40, 40)" for p j rnd
    using that by (intro sampleScore_gray_80) (auto simp: gridPoints_80)
  show ?thesis
    unfolding analyze_Some gridPoints_80
    by (simp add: zip_80 s rampRng_def sortByScore_def)
qed

section \<open>Properties of the analyzer\<close>

text \<open>
  Claim C5. For every terrain and every map size, the suitable areas that the analyzer
  returns are in descending order of score: an entry never has a higher score than an
  entry before it.
\<close>

theorem suitableAreas_sorted_desc:
  "i < j \<Longrightarrow> j < length (suitableAreas (fst (analyzeTerrainForPlacement ms terrain rnd k)))
   \<Longrightarrow> score (suitableAreas (fst (analyzeTerrainForPlacement ms terrain rnd k)) ! j)
       \<le> score (suitableAreas (fst (analyzeTerrainForPlacement ms terrain rnd k)) ! i)"
proof (cases terrain)
  case None
  assume "j < length (suitableAreas (fst (analyzeTerrainForPlacement ms terrain rnd k)))"
  with None show ?thesis by (simp add: analyzeTerrainForPlacement_def)
next
  case (Some data)
  assume ij: "i < j"
    and j: "j < length (suitableAreas (fst (analyzeTerrainForPlacement ms terrain rnd k)))"
  obtain xs where eq: "suitableAreas (fst (analyzeTerrainForPlacement ms terrain rnd k)) = sortByScore xs"
    using Some by (simp add: analyze_Some)
  have "sorted (map (\<lambda>a. - score a) (sortByScore xs))" by (simp add: sortByScore_def)
  moreover have "i \<le> j" using ij by simp
  moreover have "j < length (map (\<lambda>a. - score a) (sortByScore xs))" using j eq by simp
  ultimately have "map (\<lambda>a. - score a) (sortByScore xs) ! i \<le> map (\<lambda>a. - score a) (sortByScore xs) ! j"
    by (rule sorted_nth_mono)
  then show ?thesis using ij j eq by simp
qed

text \<open>
  On the gray map of 80 by 80 with the draws 0, 1/4, 1/2, 3/4 the second entry has score
  130 and the first 135.
\<close>

theorem suitableAreas_sorted_desc_witness:
  "(0::nat) < 1
   \<and> 1 < length (suitableAreas (fst (analyzeTerrainForPlacement \<lparr>width = 80, height = 80\<rparr>
        (Some (uniformData 6400 120 120 120)) rampRng 0)))
   \<and> score (suitableAreas (fst (analyzeTerrainForPlacement \<lparr>width = 80, height = 80\<rparr>
        (Some (uniformData 6400 120 120 120)) rampRng 0)) ! 1)
     \<le> score (suitableAreas (fst (analyzeTerrainForPlacement \<lparr>width = 80, height = 80\<rparr>
        (Some (uniformData 6400 120 120 120)) rampRng 0)) ! 0)"
proof -
  have l: "1 < length (suitableAreas (fst (analyzeTerrainForPlacement \<lparr>width = 80, height = 80\<rparr>
        (Some (uniformData 6400 120 120 120)) rampRng 0)))"
    by (simp add: gray_example)
  have z: "(0::nat) < 1" by simp
  show ?thesis using suitableAreas_sorted_desc [OF z l] l by simp
qed








section \<open>Properties of the selector\<close>

text \<open>
  Claim C7. The bonus of a location type at a score is 20 for a landmark above 80, 15
  for a shop strictly between 60 and 90, 10 for a mission above 70, 25 for a resource
  above 50, 15 for an npc above 60, and 0 in every other case.
\<close>

theorem typeBonus_cases:
  "typeBonus locationType s =
    (if locationType = ''landmark'' \<and> s > 80 then 20
     else if locationType = ''shop'' \<and> 60 < s \<and> s < 90 then 15
     else if locationType = ''mission'' \<and> s > 70 then 10
     else if locationType = ''resource'' \<and> s > 50 then 25
     else if locationType = ''npc'' \<and> s > 60 then 15
     else 0)"
  by (auto simp: typeBonus_def Let_def)



text \<open>
  Claim C3, amended. When the map is at least 100 wide and 100 high and the draws are in
  \<open>[0, 1)\<close>, the point returned by the selector satisfies
  \<open>50 \<le> x \<le> width - 50\<close> and \<open>50 \<le> y \<le> height - 50\<close>, on every return path.
\<close>

theorem placement_in_bounds:
  "validRng rnd \<Longrightarrow> 100 \<le> width ms \<Longrightarrow> 100 \<le> height ms
    \<Longrightarrow> inBounds ms (fst (findOptimalPlacement ms lt ex ta rnd k))"
  by (simp add: findOptimalPlacement_def randomAttempts_inBounds scanAreas_inBounds)

theorem placement_in_bounds_witness:
  "validRng (constRng (1 / 2)) \<and> (100::int) \<le> 1200 \<and> (100::int) \<le> 800
   \<and> inBounds \<lparr>width = 1200, height = 800\<rparr>
        (fst (findOptimalPlacement \<lparr>width = 1200, height = 800\<rparr> ''shop'' []
               \<lparr>suitableAreas = [], avoidAreas = []\<rparr> (constRng (1 / 2)) 0))"
proof -
  have v: "validRng (constRng (1 / 2))" by (simp add: validRng_const)
  have "inBounds \<lparr>width = 1200, height = 800\<rparr>
        (fst (findOptimalPlacement \<lparr>width = 1200, height = 800\<rparr> ''shop'' []
               \<lparr>suitableAreas = [], avoidAreas = []\<rparr> (constRng (1 / 2)) 0))"
    using placement_in_bounds [OF v, of "\<lparr>width = 1200, height = 800\<rparr>"] by simp
  with v show ?thesis by simp
qed

text \<open>
  On a map 60 wide, without terrain and with every draw 1/2, the returned \<open>x\<close> is 30:
  below the margin 50 and above \<open>width - 50 = 10\<close>.
\<close>

theorem placement_out_of_bounds_narrow_map:
  "validRng (constRng (1 / 2))
   \<and> px (fst (findOptimalPlacement \<lparr>width = 60, height = 800\<rparr> ''shop'' []
               \<lparr>suitableAreas = [], avoidAreas = []\<rparr> (constRng (1 / 2)) 0)) = 30
   \<and> \<not> inBounds \<lparr>width = 60, height = 800\<rparr>
        (fst (findOptimalPlacement \<lparr>width = 60, height = 800\<rparr> ''shop'' []
               \<lparr>suitableAreas = [], avoidAreas = []\<rparr> (constRng (1 / 2)) 0))"
  by (simp add: validRng_const findOptimalPlacement_def randomAttempts.simps tooClose_def
        randomPoint_def inBounds_def constRng_def)

text \<open>
  Claim C1, amended. When some suitable area satisfies all constraints (its score with
  the bonus exceeds 50, it is at distance at least 80 from every existing location and
  outside the disc of every avoid region), the returned point is derived from such an
  area: each coordinate is that of the area plus \<open>(draw - 1/2) * 40\<close>, clamped to the
  margin of 50. The constraints hold of the area; they are not checked again on the
  returned point.
\<close>

theorem placement_from_accepted_candidate:
  assumes "\<exists>a \<in> set (suitableAreas ta).
     50 < score a + typeBonus lt (score a)
     \<and> (\<forall>loc \<in> set ex. 80 \<le> sqrt ((loc_x loc - real_of_int (area_x a))\<^sup>2
                                    + (loc_y loc - real_of_int (area_y a))\<^sup>2))
     \<and> (\<forall>av \<in> set (avoidAreas ta).
           radius av \<le> sqrt ((real_of_int (avoid_x av) - real_of_int (area_x a))\<^sup>2
                             + (real_of_int (avoid_y av) - real_of_int (area_y a))\<^sup>2))"
  shows "\<exists>a \<in> set (suitableAreas ta).
     px (fst (findOptimalPlacement ms lt ex ta rnd k))
       = max 50 (min (real_of_int (width ms) - 50) (real_of_int (area_x a) + (rnd k - 1 / 2) * 40))
     \<and> py (fst (findOptimalPlacement ms lt ex ta rnd k))
       = max 50 (min (real_of_int (height ms) - 50) (real_of_int (area_y a) + (rnd (k + 1) - 1 / 2) * 40))
     \<and> 50 < score a + typeBonus lt (score a)
     \<and> (\<forall>loc \<in> set ex. 80 \<le> sqrt ((loc_x loc - real_of_int (area_x a))\<^sup>2
                                    + (loc_y loc - real_of_int (area_y a))\<^sup>2))
     \<and> (\<forall>av \<in> set (avoidAreas ta).
           radius av \<le> sqrt ((real_of_int (avoid_x av) - real_of_int (area_x a))\<^sup>2
                             + (real_of_int (avoid_y av) - real_of_int (area_y a))\<^sup>2))"
proof -
  from assms have ex1: "\<exists>a \<in> set (suitableAreas ta). acceptable lt ex (avoidAreas ta) a"
    by (simp only: acceptable_iff)
  then have ne: "length (suitableAreas ta) \<noteq> 0" by auto
  from scanAreas_accepts [OF ex1, of ms rnd k]
  obtain a where a: "a \<in> set (suitableAreas ta)" and acc: "acceptable lt ex (avoidAreas ta) a"
    and res: "scanAreas ms lt ex (avoidAreas ta) rnd k (suitableAreas ta) = (jittered ms a rnd k, k + 2)"
    by blast
  have f: "fst (findOptimalPlacement ms lt ex ta rnd k) = jittered ms a rnd k"
    using ne res by (simp add: findOptimalPlacement_def)
  have "px (fst (findOptimalPlacement ms lt ex ta rnd k))
       = max 50 (min (real_of_int (width ms) - 50) (real_of_int (area_x a) + (rnd k - 1 / 2) * 40))"
    and "py (fst (findOptimalPlacement ms lt ex ta rnd k))
       = max 50 (min (real_of_int (height ms) - 50) (real_of_int (area_y a) + (rnd (k + 1) - 1 / 2) * 40))"
    unfolding f by (simp_all add: jittered_def Let_def)
  with a acc [unfolded acceptable_iff] show ?thesis by blast
qed

text \<open>
  The map of 1200 by 800 with the area (100, 100) of score 100, an existing location at
  (180, 100) and an avoid region of radius 30 at (110, 130), every draw being 3/4: the
  area satisfies the constraints and the returned point is (110, 110).
\<close>

theorem placement_from_accepted_candidate_witness:
  "50 < score \<lparr>area_x = 100, area_y = 100, score = 100\<rparr>
          + typeBonus ''shop'' (score \<lparr>area_x = 100, area_y = 100, score = 100\<rparr>)
   \<and> px (fst (findOptimalPlacement \<lparr>width = 1200, height = 800\<rparr> ''shop''
        [\<lparr>loc_type = ''npc'', loc_x = 180, loc_y = 100\<rparr>]
        \<lparr>suitableAreas = [\<lparr>area_x = 100, area_y = 100, score = 100\<rparr>],
         avoidAreas = [\<lparr>avoid_x = 110, avoid_y = 130, radius = 30\<rparr>]\<rparr> (constRng (3 / 4)) 0)) = 110
   \<and> py (fst (findOptimalPlacement \<lparr>width = 1200, height = 800\<rparr> ''shop''
        [\<lparr>loc_type = ''npc'', loc_x = 180, loc_y = 100\<rparr>]
        \<lparr>suitableAreas = [\<lparr>area_x = 100, area_y = 100, score = 100\<rparr>],
         avoidAreas = [\<lparr>avoid_x = 110, avoid_y = 130, radius = 30\<rparr>]\<rparr> (constRng (3 / 4)) 0)) = 110
   \<and> 80 \<le> sqrt ((180 - real_of_int 100)\<^sup>2 + (100 - real_of_int 100)\<^sup>2)
   \<and> (30::real) \<le> sqrt ((real_of_int 110 - real_of_int 100)\<^sup>2 + (real_of_int 130 - real_of_int 100)\<^sup>2)"
proof -
  have s: "\<not> sqrt 1000 < 30" by (simp add: sqrt_less_30)
  have h: "\<exists>a \<in> set (suitableAreas \<lparr>suitableAreas = [\<lparr>area_x = 100, area_y = 100, score = 100\<rparr>],
         avoidAreas = [\<lparr>avoid_x = 110, avoid_y = 130, radius = 30\<rparr>]\<rparr>).
     50 < score a + typeBonus ''shop'' (score a)
     \<and> (\<forall>loc \<in> set [\<lparr>loc_type = ''npc'', loc_x = 180, loc_y = 100\<rparr>].
            80 \<le> sqrt ((loc_x loc - real_of_int (area_x a))\<^sup>2
                                    + (loc_y loc - real_of_int (area_y a))\<^sup>2))
     \<and> (\<forall>av \<in> set (avoidAreas \<lparr>suitableAreas = [\<lparr>area_x = 100, area_y = 100, score = 100\<rparr>],
         avoidAreas = [\<lparr>avoid_x = 110, avoid_y = 130, radius = 30\<rparr>]\<rparr>).
           radius av \<le> sqrt ((real_of_int (avoid_x av) - real_of_int (area_x a))\<^sup>2
                             + (real_of_int (avoid_y av) - real_of_int (area_y a))\<^sup>2))"
    using s by (simp add: typeBonus_def)
  show ?thesis
    using placement_from_accepted_candidate [OF h, of "\<lparr>width = 1200, height = 800\<rparr>" "constRng (3 / 4)" 0] s
    by (simp add: constRng_def typeBonus_def)
qed

text \<open>
  In the same situation the returned point (110, 110) is nearer than 80 to the existing
  location at (180, 100), and inside the disc of the avoid region at (110, 130).
\<close>

theorem returned_point_violates_constraints:
  "acceptable ''shop'' [\<lparr>loc_type = ''npc'', loc_x = 180, loc_y = 100\<rparr>]
       [\<lparr>avoid_x = 110, avoid_y = 130, radius = 30\<rparr>] \<lparr>area_x = 100, area_y = 100, score = 100\<rparr>
   \<and> validRng (constRng (3 / 4))
   \<and> fst (findOptimalPlacement \<lparr>width = 1200, height = 800\<rparr> ''shop''
        [\<lparr>loc_type = ''npc'', loc_x = 180, loc_y = 100\<rparr>]
        \<lparr>suitableAreas = [\<lparr>area_x = 100, area_y = 100, score = 100\<rparr>],
         avoidAreas = [\<lparr>avoid_x = 110, avoid_y = 130, radius = 30\<rparr>]\<rparr> (constRng (3 / 4)) 0)
      = \<lparr>px = 110, py = 110\<rparr>
   \<and> tooClose [\<lparr>loc_type = ''npc'', loc_x = 180, loc_y = 100\<rparr>] 110 110
   \<and> inAvoidArea [\<lparr>avoid_x = 110, avoid_y = 130, radius = 30\<rparr>] 110 110"
proof -
  have acc: "acceptable ''shop'' [\<lparr>loc_type = ''npc'', loc_x = 180, loc_y = 100\<rparr>]
       [\<lparr>avoid_x = 110, avoid_y = 130, radius = 30\<rparr>] \<lparr>area_x = 100, area_y = 100, score = 100\<rparr>"
    by (simp add: acceptable_def tooClose_def inAvoidArea_def typeBonus_def sqrt_less_80 sqrt_less_30)
  have v: "validRng (constRng (3 / 4))" by (simp add: validRng_const)
  have r: "fst (findOptimalPlacement \<lparr>width = 1200, height = 800\<rparr> ''shop''
        [\<lparr>loc_type = ''npc'', loc_x = 180, loc_y = 100\<rparr>]
        \<lparr>suitableAreas = [\<lparr>area_x = 100, area_y = 100, score = 100\<rparr>],
         avoidAreas = [\<lparr>avoid_x = 110, avoid_y = 130, radius = 30\<rparr>]\<rparr> (constRng (3 / 4)) 0)
      = \<lparr>px = 110, py = 110\<rparr>"
    using acc by (simp add: findOptimalPlacement_def jittered_def constRng_def)
  have t: "tooClose [\<lparr>loc_type = ''npc'', loc_x = 180, loc_y = 100\<rparr>] 110 110"
    by (simp add: tooClose_def sqrt_less_80)
  have i: "inAvoidArea [\<lparr>avoid_x = 110, avoid_y = 130, radius = 30\<rparr>] 110 110"
    by (simp add: inAvoidArea_def sqrt_less_30)
  show ?thesis using acc v r t i by (intro conjI)
qed

end
